theory Spec2Isabelle
  imports Complex_Main "HOL-Library.Word"
begin

section \<open>Strings, bytes and Python values\<close>

text \<open>
  A Python \<open>str\<close> is a sequence of Unicode code points; it is modelled as a list of
  natural numbers, so that \<open>length\<close> counts what \<open>len\<close> counts. \<open>lit\<close> reads an ASCII
  literal as such a string.
\<close>

type_synonym str = "nat list"
type_synonym bytes = "8 word list"

definition lit :: "string \<Rightarrow> str" where
  "lit s = map of_char s"

text \<open>
  Exceptions are values. Every kind below is a subclass of Python's \<open>Exception\<close>;
  the string is what \<open>str(e)\<close> returns. \<open>LibraryError\<close> stands for whatever an external
  library (PDF readers, the model client) raises.
\<close>

datatype exn_kind = ValueError | TypeError | AttributeError | OverflowError
  | RuntimeError | LibraryError | HTTPException nat

datatype exn = Exn exn_kind str

fun exn_str :: "exn \<Rightarrow> str" where
  "exn_str (Exn k msg) = msg"

text \<open>A Python \<open>float\<close>: a finite value, an infinity or NaN.\<close>

datatype pyfloat = Finite real | PosInf | NegInf | NaN

text \<open>
  What \<open>json.loads\<close> returns: \<open>None\<close>, \<open>bool\<close>, \<open>int\<close>, \<open>float\<close>, \<open>str\<close>, \<open>list\<close> or
  \<open>dict\<close>. A dict is kept as its association list, read with \<open>map_of\<close>.
\<close>

datatype json = JNull | JBool bool | JInt int | JFloat pyfloat | JStr str
  | JArr "json list" | JObj "(str \<times> json) list"

subsection \<open>Character classes\<close>

text \<open>
  \<open>str.isspace\<close>, which is also what \<open>str.strip()\<close> removes and what \<open>\s\<close> matches
  in a \<open>str\<close> pattern.
\<close>

definition is_space :: "nat \<Rightarrow> bool" where
  "is_space c = ((9 \<le> c \<and> c \<le> 13) \<or> (28 \<le> c \<and> c \<le> 32) \<or> c = 133 \<or> c = 160
     \<or> c = 5760 \<or> (8192 \<le> c \<and> c \<le> 8202) \<or> c = 8232 \<or> c = 8233
     \<or> c = 8239 \<or> c = 8287 \<or> c = 12288)"

definition strip :: "str \<Rightarrow> str" where
  "strip s = rev (dropWhile is_space (rev (dropWhile is_space s)))"

subsection \<open>The external world\<close>

text \<open>
  The libraries and builtins the program calls but does not define are fields of an
  environment: the Unicode tables behind \<open>\w\<close> and \<open>str.lower\<close>, BeautifulSoup, the two
  PDF readers, the UTF-8 codec, \<open>json.loads\<close>, \<open>float\<close> on a string and on an integer
  beyond \<open>2^53\<close>, and the Gemini client. A call that raises returns \<open>Inl\<close>.
\<close>

record response =
  text_attr :: "str option"
  candidate_text :: "str option"

record env =
  uni_alnum :: "nat \<Rightarrow> bool"
  py_lower :: "str \<Rightarrow> str"
  bs_get_text :: "str \<Rightarrow> str"
  pdf_reader :: "bytes \<Rightarrow> exn + (exn + str option) list"
  pdfminer_extract_text :: "bytes \<Rightarrow> exn + str option"
  utf8_ignore :: "bytes \<Rightarrow> exn + str"
  json_loads :: "str \<Rightarrow> exn + json"
  float_of_str :: "str \<Rightarrow> pyfloat option"
  float_of_big :: "int \<Rightarrow> real option"
  prompt_head :: "str"
  generate_content :: "str \<Rightarrow> exn + response"

section \<open>Classification client\<close>

subsection \<open>parse_json_strict\<close>

text \<open>\<open>str.find\<close> and \<open>str.rfind\<close> for a single character: an index, or \<open>-1\<close>.\<close>

fun find_idx :: "nat \<Rightarrow> str \<Rightarrow> int" where
  "find_idx c [] = -1"
| "find_idx c (x # xs) =
     (if x = c then 0 else (let r = find_idx c xs in if r = -1 then -1 else r + 1))"

fun rfind_idx :: "nat \<Rightarrow> str \<Rightarrow> int" where
  "rfind_idx c [] = -1"
| "rfind_idx c (x # xs) =
     (let r = rfind_idx c xs in if r \<noteq> -1 then r + 1 else if x = c then 0 else -1)"

text \<open>The slice \<open>s[i:j]\<close> for indices that are not negative.\<close>

definition slice :: "str \<Rightarrow> int \<Rightarrow> int \<Rightarrow> str" where
  "slice s i j = take (nat j - nat i) (drop (nat i) s)"

definition msg_no_json :: str where
  "msg_no_json = lit ''Resposta n'' @ [227] @ lit ''o cont'' @ [233] @ lit ''m JSON.''"

definition parse_json_strict :: "env \<Rightarrow> str \<Rightarrow> exn + json" where
  "parse_json_strict e s =
     (let start = find_idx 123 s; end = rfind_idx 125 s in
      if start = -1 \<or> end = -1 \<or> end \<le> start
      then Inl (Exn ValueError msg_no_json)
      else json_loads e (slice s start (end + 1)))"

section \<open>Text normalizer\<close>

subsection \<open>String operations used by the cleaner\<close>

definition starts_with :: "str \<Rightarrow> str \<Rightarrow> bool" where
  "starts_with p s = (take (length p) s = p)"

definition ends_with :: "str \<Rightarrow> str \<Rightarrow> bool" where
  "ends_with p s = (length p \<le> length s \<and> drop (length s - length p) s = p)"

text \<open>The test \<open>p in s\<close> for strings.\<close>

fun contains :: "str \<Rightarrow> str \<Rightarrow> bool" where
  "contains p [] = (p = [])"
| "contains p (c # cs) = (starts_with p (c # cs) \<or> contains p cs)"

text \<open>
  \<open>str.splitlines()\<close>: the line boundaries are LF, VT, FF, CR, CR LF, FS, GS, RS, NEL,
  LS and PS; a final boundary opens no further line.
\<close>

definition is_linebreak :: "nat \<Rightarrow> bool" where
  "is_linebreak c = (c = 10 \<or> c = 11 \<or> c = 12 \<or> c = 13 \<or> c = 28 \<or> c = 29 \<or> c = 30
     \<or> c = 133 \<or> c = 8232 \<or> c = 8233)"

fun splitlines_from :: "str \<Rightarrow> str \<Rightarrow> str list" where
  "splitlines_from cur [] = (if cur = [] then [] else [rev cur])"
| "splitlines_from cur [c] = (if is_linebreak c then [rev cur] else [rev (c # cur)])"
| "splitlines_from cur (c # d # cs) =
     (if c = 13 \<and> d = 10 then rev cur # splitlines_from [] cs
      else if is_linebreak c then rev cur # splitlines_from [] (d # cs)
      else splitlines_from (c # cur) (d # cs))"

definition splitlines :: "str \<Rightarrow> str list" where
  "splitlines s = splitlines_from [] s"

text \<open>\<open>" ".join(lines)\<close>\<close>

fun join_sp :: "str list \<Rightarrow> str" where
  "join_sp [] = []"
| "join_sp [l] = l"
| "join_sp (l # m # ls) = l @ [32] @ join_sp (m # ls)"

subsection \<open>HEADER_RE\<close>

text \<open>
  The pattern is compiled with \<open>re.I\<close>: a lower-case letter of the pattern matches itself,
  its upper-case form and the code points the \<open>re\<close> module treats as case-equivalent
  (U+0130 and U+0131 for \<open>i\<close>, U+017F for \<open>s\<close>, U+212A for \<open>k\<close>); \<open>-\<close> matches itself.
\<close>

definition ci_eq :: "nat \<Rightarrow> nat \<Rightarrow> bool" where
  "ci_eq p c = (c = p \<or> (97 \<le> p \<and> p \<le> 122 \<and> c + 32 = p)
     \<or> (p = 105 \<and> (c = 304 \<or> c = 305)) \<or> (p = 115 \<and> c = 383) \<or> (p = 107 \<and> c = 8490))"

fun match_label :: "str \<Rightarrow> str \<Rightarrow> str option" where
  "match_label [] s = Some s"
| "match_label (p # ps) [] = None"
| "match_label (p # ps) (c # cs) = (if ci_eq p c then match_label ps cs else None)"

definition header_labels :: "str list" where
  "header_labels = map lit [''from'', ''de'', ''to'', ''para'', ''subject'', ''assunto'',
     ''date'', ''data'', ''cc'', ''bcc'', ''reply-to'', ''message-id'', ''received'']"

text \<open>After a label, \<open>\s*:\<close>: any whitespace, then a colon.\<close>

definition colon_follows :: "str \<Rightarrow> bool" where
  "colon_follows r = (case dropWhile is_space r of [] \<Rightarrow> False | c # cs \<Rightarrow> c = 58)"

definition header_re_match :: "str \<Rightarrow> bool" where
  "header_re_match s =
     list_ex (\<lambda>l. case match_label l s of None \<Rightarrow> False | Some r \<Rightarrow> colon_follows r)
       header_labels"

subsection \<open>clean_email_text\<close>

definition strip_html :: "env \<Rightarrow> str \<Rightarrow> str" where
  "strip_html e s = bs_get_text e s"

definition has_markup :: "env \<Rightarrow> str \<Rightarrow> bool" where
  "has_markup e raw = (contains (lit ''<html'') (py_lower e raw)
     \<or> contains (lit ''<div'') (py_lower e raw) \<or> contains (lit ''<br'') (py_lower e raw))"

text \<open>The loop over \<open>raw.splitlines()\<close>, with its four \<open>continue\<close> tests in order.\<close>

fun keep_lines :: "str list \<Rightarrow> str list" where
  "keep_lines [] = []"
| "keep_lines (l # ls) =
     (let line = strip l in
      if line = [] then keep_lines ls
      else if header_re_match line then keep_lines ls
      else if starts_with [62] line then keep_lines ls
      else if length line < 3 then keep_lines ls
      else line # keep_lines ls)"

text \<open>
  \<open>re.sub(r"https?://\S+", " ", text)\<close>: at each position, a match is the scheme followed
  by at least one character that is not whitespace, and extends over all of them.
\<close>

definition url_scheme :: "str \<Rightarrow> nat option" where
  "url_scheme s = (if starts_with (lit ''https://'') s then Some 8
     else if starts_with (lit ''http://'') s then Some 7 else None)"

definition url_match :: "str \<Rightarrow> str option" where
  "url_match s = (case url_scheme s of None \<Rightarrow> None
     | Some n \<Rightarrow> (case drop n s of [] \<Rightarrow> None
         | c # cs \<Rightarrow> if is_space c then None else Some (dropWhile (\<lambda>x. \<not> is_space x) cs)))"

function remove_urls :: "str \<Rightarrow> str" where
  "remove_urls [] = []"
| "remove_urls (c # cs) =
     (case url_match (c # cs) of Some r \<Rightarrow> 32 # remove_urls r | None \<Rightarrow> c # remove_urls cs)"
  by pat_completeness auto
termination
proof (relation "measure length")
  show "wf (measure length)" by simp
next
  fix c cs r
  assume "url_match (c # cs) = Some r"
  then obtain n d ds where d: "drop n (c # cs) = d # ds"
    and r: "r = dropWhile (\<lambda>x. \<not> is_space x) ds"
    by (auto simp: url_match_def split: option.splits list.splits if_splits)
  have "length r \<le> length ds" unfolding r by (rule length_dropWhile_le)
  moreover have "length (drop n (c # cs)) \<le> length (c # cs)" by simp
  ultimately have "length r < length (c # cs)" using d by simp
  then show "(r, c # cs) \<in> measure length" by simp
next
  fix c cs
  show "(cs, c # cs) \<in> measure length" by simp
qed

text \<open>\<open>re.sub(r"[^\w\s\-.,!?;:()]", " ", text)\<close>\<close>

definition ascii_alnum :: "nat \<Rightarrow> bool" where
  "ascii_alnum c = ((48 \<le> c \<and> c \<le> 57) \<or> (65 \<le> c \<and> c \<le> 90) \<or> (97 \<le> c \<and> c \<le> 122))"

definition is_word :: "env \<Rightarrow> nat \<Rightarrow> bool" where
  "is_word e c = (c = 95 \<or> (if c < 128 then ascii_alnum c else uni_alnum e c))"

definition allowed :: "env \<Rightarrow> nat \<Rightarrow> bool" where
  "allowed e c = (is_word e c \<or> is_space c \<or> c = 45 \<or> c = 46 \<or> c = 44 \<or> c = 33
     \<or> c = 63 \<or> c = 59 \<or> c = 58 \<or> c = 40 \<or> c = 41)"

definition blank_noise :: "env \<Rightarrow> str \<Rightarrow> str" where
  "blank_noise e s = map (\<lambda>c. if allowed e c then c else 32) s"

text \<open>\<open>re.sub(r"\s{2,}", " ", text)\<close>: a run of two or more whitespace characters becomes one space.\<close>

function collapse_ws :: "str \<Rightarrow> str" where
  "collapse_ws [] = []"
| "collapse_ws [c] = [c]"
| "collapse_ws (c # d # cs) =
     (if is_space c \<and> is_space d then 32 # collapse_ws (dropWhile is_space cs)
      else c # collapse_ws (d # cs))"
  by pat_completeness auto
termination
  by (relation "measure length") (auto simp: length_dropWhile_le le_imp_less_Suc less_SucI)

definition clean_email_text :: "env \<Rightarrow> str \<Rightarrow> str" where
  "clean_email_text e raw =
     (if raw = [] then []
      else
        let raw1 = (if has_markup e raw then strip_html e raw else raw);
            lines = keep_lines (splitlines raw1)
        in if lines = [] then []
           else
             let t = strip (collapse_ws (blank_noise e (remove_urls (join_sp lines))))
             in if length t < 10 then [] else t)"

section \<open>Document decoder\<close>

text \<open>Latin-1 maps every byte to the code point of the same number.\<close>

definition latin1_decode :: "bytes \<Rightarrow> str" where
  "latin1_decode d = map unat d"

text \<open>
  \<open>"".join((page.extract_text() or "") for page in reader.pages)\<close>: the reader gives, for
  each page, what \<open>extract_text\<close> returns or raises.
\<close>

definition or_empty :: "str option \<Rightarrow> str" where
  "or_empty t = (case t of None \<Rightarrow> [] | Some s \<Rightarrow> s)"

fun join_pages :: "(exn + str option) list \<Rightarrow> exn + str" where
  "join_pages [] = Inr []"
| "join_pages (p # ps) =
     (case p of Inl x \<Rightarrow> Inl x
      | Inr t \<Rightarrow> (case join_pages ps of Inl x \<Rightarrow> Inl x | Inr r \<Rightarrow> Inr (or_empty t @ r)))"

definition pypdf2_content :: "env \<Rightarrow> bytes \<Rightarrow> exn + str" where
  "pypdf2_content e d = (case pdf_reader e d of Inl x \<Rightarrow> Inl x | Inr pages \<Rightarrow> join_pages pages)"

definition pdfminer_content :: "env \<Rightarrow> bytes \<Rightarrow> exn + str" where
  "pdfminer_content e d =
     (case pdfminer_extract_text e d of Inl x \<Rightarrow> Inl x | Inr t \<Rightarrow> Inr (or_empty t))"

text \<open>The test \<open>text_content and len(text_content.strip()) > 100\<close> of the two byte decodings.\<close>

definition long_enough :: "str \<Rightarrow> bool" where
  "long_enough t = (t \<noteq> [] \<and> 100 < length (strip t))"

text \<open>
  \<open>read_pdf\<close> is four \<open>try\<close> blocks in a row; an exception in one is printed and the next
  block runs. Each definition below is one block followed by the rest of the function.
\<close>

definition read_pdf_latin1 :: "bytes \<Rightarrow> exn + str" where
  "read_pdf_latin1 d =
     (if long_enough (latin1_decode d) then Inr (latin1_decode d) else Inr [])"

definition read_pdf_utf8 :: "env \<Rightarrow> bytes \<Rightarrow> exn + str" where
  "read_pdf_utf8 e d =
     (case utf8_ignore e d of
        Inl x \<Rightarrow> read_pdf_latin1 d
      | Inr t \<Rightarrow> if long_enough t then Inr t else read_pdf_latin1 d)"

definition read_pdf_pdfminer :: "env \<Rightarrow> bytes \<Rightarrow> exn + str" where
  "read_pdf_pdfminer e d =
     (case pdfminer_content e d of
        Inl x \<Rightarrow> read_pdf_utf8 e d
      | Inr content \<Rightarrow> if strip content \<noteq> [] then Inr content else read_pdf_utf8 e d)"

definition read_pdf :: "env \<Rightarrow> bytes \<Rightarrow> exn + str" where
  "read_pdf e d =
     (case pypdf2_content e d of
        Inl x \<Rightarrow> read_pdf_pdfminer e d
      | Inr content \<Rightarrow> if strip content \<noteq> [] then Inr content else read_pdf_pdfminer e d)"

definition read_file_bytes_to_text :: "env \<Rightarrow> str \<Rightarrow> bytes \<Rightarrow> exn + str" where
  "read_file_bytes_to_text e fname d =
     (if ends_with (lit ''.pdf'') (py_lower e fname) then read_pdf e d
      else (case utf8_ignore e d of Inl x \<Rightarrow> Inr (latin1_decode d) | Inr t \<Rightarrow> Inr t))"

section \<open>Classification client, continued\<close>

subsection \<open>Python operations on parsed values\<close>

text \<open>Truth value of a parsed value, as \<open>not v\<close> and \<open>v or d\<close> test it.\<close>

fun truthy :: "json \<Rightarrow> bool" where
  "truthy JNull = False"
| "truthy (JBool b) = b"
| "truthy (JInt i) = (i \<noteq> 0)"
| "truthy (JFloat f) = (f \<noteq> Finite 0)"
| "truthy (JStr s) = (s \<noteq> [])"
| "truthy (JArr xs) = (xs \<noteq> [])"
| "truthy (JObj kvs) = (kvs \<noteq> [])"

text \<open>\<open>data.get(k, d)\<close>; on anything but a dict the attribute is missing.\<close>

definition dict_get :: "json \<Rightarrow> str \<Rightarrow> json \<Rightarrow> exn + json" where
  "dict_get data k d =
     (case data of
        JObj kvs \<Rightarrow> (case map_of kvs k of None \<Rightarrow> Inr d | Some v \<Rightarrow> Inr v)
      | _ \<Rightarrow> Inl (Exn AttributeError (lit ''get'')))"

text \<open>\<open>v.strip()\<close>: only a string has the method.\<close>

definition py_strip :: "json \<Rightarrow> exn + str" where
  "py_strip v = (case v of JStr s \<Rightarrow> Inr (strip s) | _ \<Rightarrow> Inl (Exn AttributeError (lit ''strip'')))"

text \<open>
  \<open>float(v)\<close>: \<open>None\<close>, a list and a dict are a \<open>TypeError\<close>; a string is parsed or is a
  \<open>ValueError\<close>; an integer up to \<open>2^53\<close> in magnitude converts exactly, a larger one is
  rounded or is an \<open>OverflowError\<close>.
\<close>

definition py_float :: "env \<Rightarrow> json \<Rightarrow> exn + pyfloat" where
  "py_float e v =
     (case v of
        JNull \<Rightarrow> Inl (Exn TypeError (lit ''float''))
      | JBool b \<Rightarrow> Inr (Finite (if b then 1 else 0))
      | JInt i \<Rightarrow>
          (if \<bar>i\<bar> \<le> 2 ^ 53 then Inr (Finite (of_int i))
           else (case float_of_big e i of
                   None \<Rightarrow> Inl (Exn OverflowError (lit ''float''))
                 | Some r \<Rightarrow> Inr (Finite r)))
      | JFloat f \<Rightarrow> Inr f
      | JStr s \<Rightarrow>
          (case float_of_str e s of
             None \<Rightarrow> Inl (Exn ValueError (lit ''float''))
           | Some f \<Rightarrow> Inr f)
      | JArr xs \<Rightarrow> Inl (Exn TypeError (lit ''float''))
      | JObj kvs \<Rightarrow> Inl (Exn TypeError (lit ''float'')))"

text \<open>\<open>v in {...}\<close> for a set of strings: a list or a dict cannot be hashed.\<close>

definition in_str_set :: "json \<Rightarrow> str list \<Rightarrow> exn + bool" where
  "in_str_set v xs =
     (case v of
        JArr ys \<Rightarrow> Inl (Exn TypeError (lit ''unhashable''))
      | JObj kvs \<Rightarrow> Inl (Exn TypeError (lit ''unhashable''))
      | JStr s \<Rightarrow> Inr (s \<in> set xs)
      | _ \<Rightarrow> Inr False)"

subsection \<open>normalize_intent\<close>

definition s_duvida :: str where "s_duvida = lit ''d'' @ [250] @ lit ''vida''"
definition s_felicitacoes :: str where "s_felicitacoes = lit ''felicita'' @ [231, 245] @ lit ''es''"
definition s_outros :: str where "s_outros = lit ''outros''"

definition intent_mapping :: "(str \<times> str) list" where
  "intent_mapping = [(lit ''duvida'', s_duvida), (lit ''agradecimentos'', lit ''agradecimento''),
     (lit ''felicitacao'', s_felicitacoes), (lit ''felicitacoes'', s_felicitacoes)]"

definition intents :: "str list" where
  "intents = [lit ''status'', lit ''anexo'', lit ''suporte'', s_duvida, s_felicitacoes,
     lit ''agradecimento'', s_outros]"

definition normalize_intent :: "env \<Rightarrow> json \<Rightarrow> exn + str" where
  "normalize_intent e v =
     (if \<not> truthy v then Inr s_outros
      else (case py_strip v of
              Inl x \<Rightarrow> Inl x
            | Inr s \<Rightarrow>
                (let v1 = py_lower e s;
                     v2 = (case map_of intent_mapping v1 of None \<Rightarrow> v1 | Some m \<Rightarrow> m)
                 in Inr (if v2 \<in> set intents then v2 else s_outros))))"

subsection \<open>classify_with_gemini\<close>

record result =
  rid :: "str option"
  category :: str
  confidence :: pyfloat
  suggested_reply :: str
  intent :: str

definition s_produtivo :: str where "s_produtivo = lit ''Produtivo''"
definition s_improdutivo :: str where "s_improdutivo = lit ''Improdutivo''"
definition default_reply :: str where "default_reply = lit ''Obrigado pela mensagem!''"

definition msg_no_response :: str where
  "msg_no_response = lit ''N'' @ [227] @ lit ''o foi poss'' @ [237]
     @ lit ''vel ler a resposta do Gemini.''"

text \<open>
  The prompt is the fixed instructions and examples, then the request line and the e-mail
  between two rules.
\<close>

definition build_user_prompt :: "env \<Rightarrow> str \<Rightarrow> str" where
  "build_user_prompt e email_text =
     prompt_head e @ lit ''E-mail:'' @ [10] @ lit ''-----'' @ [10] @ email_text @ [10]
       @ lit ''-----'' @ [10]"

text \<open>
  \<open>getattr(resp, "text", None)\<close>, and when that is empty or missing the first part of the
  first candidate, whose absence becomes a \<open>RuntimeError\<close>.
\<close>

definition output_text :: "response \<Rightarrow> exn + str" where
  "output_text r =
     (if or_empty (text_attr r) \<noteq> [] then Inr (or_empty (text_attr r))
      else (case candidate_text r of
              None \<Rightarrow> Inl (Exn RuntimeError msg_no_response)
            | Some t \<Rightarrow> Inr t))"

text \<open>
  The statements after \<open>parse_json_strict\<close>, in their order: category, intent, confidence,
  reply. The first one that raises ends the call. The default \<open>0.7\<close> of the confidence is
  the real number 7/10.
\<close>

definition payload_category :: "json \<Rightarrow> exn + str" where
  "payload_category data =
     (case dict_get data (lit ''category'') (JStr s_improdutivo) of
        Inl x \<Rightarrow> Inl x
      | Inr c \<Rightarrow>
          (case in_str_set c [s_produtivo, s_improdutivo] of
             Inl x \<Rightarrow> Inl x
           | Inr known \<Rightarrow>
               Inr (if known then (case c of JStr s \<Rightarrow> s | _ \<Rightarrow> s_improdutivo)
                    else s_improdutivo)))"

definition payload_intent :: "env \<Rightarrow> json \<Rightarrow> exn + str" where
  "payload_intent e data =
     (case dict_get data (lit ''intent'') JNull of
        Inl x \<Rightarrow> Inl x
      | Inr v \<Rightarrow> normalize_intent e v)"

definition payload_confidence :: "env \<Rightarrow> json \<Rightarrow> exn + pyfloat" where
  "payload_confidence e data =
     (case dict_get data (lit ''confidence'') (JFloat (Finite (7 / 10))) of
        Inl x \<Rightarrow> Inl x
      | Inr v \<Rightarrow> py_float e v)"

definition payload_reply :: "json \<Rightarrow> exn + str" where
  "payload_reply data =
     (case dict_get data (lit ''suggested_reply'') JNull of
        Inl x \<Rightarrow> Inl x
      | Inr v \<Rightarrow>
          (case py_strip (if truthy v then v else JStr []) of
             Inl x \<Rightarrow> Inl x
           | Inr s \<Rightarrow> Inr (if s \<noteq> [] then s else default_reply)))"

definition normalize_payload :: "env \<Rightarrow> json \<Rightarrow> exn + result" where
  "normalize_payload e data =
     (case payload_category data of
        Inl x \<Rightarrow> Inl x
      | Inr c \<Rightarrow>
     (case payload_intent e data of
        Inl x \<Rightarrow> Inl x
      | Inr i \<Rightarrow>
     (case payload_confidence e data of
        Inl x \<Rightarrow> Inl x
      | Inr f \<Rightarrow>
     (case payload_reply data of
        Inl x \<Rightarrow> Inl x
      | Inr r \<Rightarrow>
          Inr \<lparr>rid = None, category = c, confidence = f, suggested_reply = r,
               intent = i\<rparr>))))"

text \<open>The call of the model up to the parsed payload, then the normalization.\<close>

definition model_payload :: "env \<Rightarrow> str \<Rightarrow> exn + json" where
  "model_payload e email_text =
     (case generate_content e (build_user_prompt e email_text) of
        Inl x \<Rightarrow> Inl x
      | Inr resp \<Rightarrow>
          (case output_text resp of
             Inl x \<Rightarrow> Inl x
           | Inr out \<Rightarrow> parse_json_strict e out))"

definition classify_with_gemini :: "env \<Rightarrow> str \<Rightarrow> exn + result" where
  "classify_with_gemini e email_text =
     (case model_payload e email_text of
        Inl x \<Rightarrow> Inl x
      | Inr data \<Rightarrow> normalize_payload e data)"

section \<open>Endpoints\<close>

text \<open>An uploaded file: its name, if any, and what \<open>await file.read()\<close> gives.\<close>

record upload =
  filename :: "str option"
  file_read :: "exn + bytes"

definition msg_send_input :: str where
  "msg_send_input = lit ''Envie um texto ou um arquivo .txt/.pdf.''"

definition msg_unsupported :: str where
  "msg_unsupported = lit ''Formato n'' @ [227] @ lit ''o suportado. Envie .txt ou .pdf.''"

definition msg_empty :: str where
  "msg_empty = lit ''Conte'' @ [250] @ lit ''do vazio.''"

definition msg_texts_json :: str where
  "msg_texts_json = lit ''Campo '' @ [39] @ lit ''texts'' @ [39] @ lit '' deve ser JSON v''
     @ [225] @ lit ''lido (lista de strings). Erro: ''"

definition msg_texts_list :: str where
  "msg_texts_list = lit ''Campo '' @ [39] @ lit ''texts'' @ [39] @ lit '' deve ser uma lista''"

definition msg_no_items :: str where
  "msg_no_items = lit ''Nenhum item v'' @ [225]
     @ lit ''lido para analisar. Verifique se os arquivos s'' @ [227]
     @ lit ''o .txt/.pdf v'' @ [225] @ lit ''lidos e cont'' @ [234] @ lit ''m texto.''"

definition msg_item_error :: str where
  "msg_item_error = lit ''Erro ao processar: ''"

text \<open>\<open>name.lower().endswith((".pdf", ".txt"))\<close>\<close>

definition supported :: "env \<Rightarrow> str \<Rightarrow> bool" where
  "supported e name = (ends_with (lit ''.pdf'') (py_lower e name)
     \<or> ends_with (lit ''.txt'') (py_lower e name))"

subsection \<open>analyze\<close>

definition analyze_content :: "env \<Rightarrow> str \<Rightarrow> exn + result" where
  "analyze_content e raw =
     (if clean_email_text e raw = [] then Inl (Exn (HTTPException 400) msg_empty)
      else classify_with_gemini e (clean_email_text e raw))"

definition analyze :: "env \<Rightarrow> str option \<Rightarrow> upload option \<Rightarrow> exn + result" where
  "analyze e txt_field file =
     (if or_empty txt_field = [] \<and> file = None
      then Inl (Exn (HTTPException 400) msg_send_input)
      else (case file of
              Some f \<Rightarrow>
                (case file_read f of
                   Inl x \<Rightarrow> Inl x
                 | Inr d \<Rightarrow>
                     if \<not> supported e (or_empty (filename f))
                     then Inl (Exn (HTTPException 415) msg_unsupported)
                     else (case read_file_bytes_to_text e (or_empty (filename f)) d of
                             Inl x \<Rightarrow> Inl x
                           | Inr raw \<Rightarrow> analyze_content e raw))
            | None \<Rightarrow> analyze_content e (or_empty txt_field)))"

subsection \<open>analyze_batch\<close>

record item =
  item_id :: str
  item_content :: str

record batch_response =
  count :: nat
  results :: "result list"

text \<open>The decimal digits of \<open>i\<close>, as \<open>f"{i}"\<close> writes them.\<close>

function str_of_nat :: "nat \<Rightarrow> str" where
  "str_of_nat n = (if n < 10 then [48 + n] else str_of_nat (n div 10) @ [48 + n mod 10])"
  by pat_completeness auto
termination
  by (relation "measure id") auto

declare str_of_nat.simps [simp del]

text \<open>The loop over \<open>enumerate(arr)\<close>.\<close>

fun text_items :: "env \<Rightarrow> nat \<Rightarrow> json list \<Rightarrow> item list" where
  "text_items e i [] = []"
| "text_items e i (t # ts) =
     (case t of
        JStr s \<Rightarrow>
          if strip s \<noteq> []
          then \<lparr>item_id = lit ''text-'' @ str_of_nat i, item_content = clean_email_text e s\<rparr>
                 # text_items e (Suc i) ts
          else text_items e (Suc i) ts
      | _ \<Rightarrow> text_items e (Suc i) ts)"

text \<open>
  The \<open>texts\<close> block: nothing when the field is missing or empty, the indexed items when
  it parses to a list, and status 400 when \<open>json.loads\<close> raises or the value is no list.
\<close>

definition parse_texts :: "env \<Rightarrow> str option \<Rightarrow> exn + item list" where
  "parse_texts e texts =
     (if or_empty texts = [] then Inr []
      else (case json_loads e (or_empty texts) of
              Inl x \<Rightarrow> Inl (Exn (HTTPException 400) (msg_texts_json @ exn_str x))
            | Inr v \<Rightarrow>
                (case v of
                   JArr arr \<Rightarrow> Inr (text_items e 0 arr)
                 | _ \<Rightarrow> Inl (Exn (HTTPException 400) (msg_texts_json @ msg_texts_list)))))"

text \<open>
  One round of the loop over \<open>enumerate(files)\<close>: whether the file was read, and the item
  it contributes. Every exception inside the round is caught and the file skipped.
\<close>

definition file_name :: "nat \<Rightarrow> upload \<Rightarrow> str" where
  "file_name i f = (if or_empty (filename f) \<noteq> [] then or_empty (filename f)
     else lit ''file-'' @ str_of_nat i)"

definition file_item :: "env \<Rightarrow> nat \<Rightarrow> upload \<Rightarrow> bool \<times> item option" where
  "file_item e i f =
     (if \<not> supported e (file_name i f) then (False, None)
      else (case file_read f of
              Inl x \<Rightarrow> (True, None)
            | Inr d \<Rightarrow>
                if d = [] then (True, None)
                else (case read_file_bytes_to_text e (file_name i f) d of
                        Inl x \<Rightarrow> (True, None)
                      | Inr content \<Rightarrow>
                          if content \<noteq> [] \<and> clean_email_text e content \<noteq> []
                          then (True, Some \<lparr>item_id = file_name i f,
                                  item_content = clean_email_text e content\<rparr>)
                          else (True, None))))"

fun file_items :: "env \<Rightarrow> nat \<Rightarrow> upload list \<Rightarrow> nat list \<times> item list" where
  "file_items e i [] = ([], [])"
| "file_items e i (f # fs) =
     ((if fst (file_item e i f) then [i] else []) @ fst (file_items e (Suc i) fs),
      (case snd (file_item e i f) of None \<Rightarrow> [] | Some it \<Rightarrow> [it])
        @ snd (file_items e (Suc i) fs))"

text \<open>The second loop: one result for each item, the placeholder when the call raised.\<close>

definition degraded :: "str \<Rightarrow> exn \<Rightarrow> result" where
  "degraded i x = \<lparr>rid = Some i, category = s_improdutivo, confidence = Finite 0,
     suggested_reply = msg_item_error @ exn_str x, intent = s_outros\<rparr>"

definition classify_item :: "env \<Rightarrow> item \<Rightarrow> result" where
  "classify_item e it =
     (case classify_with_gemini e (item_content it) of
        Inl x \<Rightarrow> degraded (item_id it) x
      | Inr r \<Rightarrow> r\<lparr>rid := Some (item_id it)\<rparr>)"

fun classify_all :: "env \<Rightarrow> item list \<Rightarrow> result list" where
  "classify_all e [] = []"
| "classify_all e (it # its) = classify_item e it # classify_all e its"

text \<open>
  \<open>analyze_batch\<close> returns the indices of the files it read, in order, and its response
  or the exception it raised.
\<close>

definition file_phase :: "env \<Rightarrow> upload list option \<Rightarrow> nat list \<times> item list" where
  "file_phase e files = (case files of None \<Rightarrow> ([], []) | Some fs \<Rightarrow> file_items e 0 fs)"

definition analyze_batch ::
    "env \<Rightarrow> str option \<Rightarrow> upload list option \<Rightarrow> nat list \<times> (exn + batch_response)" where
  "analyze_batch e texts files =
     (case parse_texts e texts of
        Inl x \<Rightarrow> ([], Inl x)
      | Inr titems \<Rightarrow>
          if titems @ snd (file_phase e files) = []
          then (fst (file_phase e files), Inl (Exn (HTTPException 400) msg_no_items))
          else (fst (file_phase e files),
                Inr \<lparr>count = length (classify_all e (titems @ snd (file_phase e files))),
                     results = classify_all e (titems @ snd (file_phase e files))\<rparr>))"

section \<open>An environment for evaluation\<close>

text \<open>
  For evaluating the definitions on ASCII inputs that are neither markup nor PDF: no
  code point beyond ASCII is alphanumeric, \<open>lower\<close> acts on \<open>A\<close> to \<open>Z\<close>, both PDF
  readers raise, the UTF-8 codec keeps the bytes below 128, and \<open>json.loads\<close> knows a
  few fixed texts. The model answers \<open>{}\<close> to a prompt that contains \<open>good\<close>,
  \<open>Here: {"confidence": 5}\<close> to one that contains \<open>five\<close>, and raises otherwise.
\<close>

definition ascii_lower :: "str \<Rightarrow> str" where
  "ascii_lower s = map (\<lambda>c. if 65 \<le> c \<and> c \<le> 90 then c + 32 else c) s"

definition lib_error :: exn where
  "lib_error = Exn LibraryError (lit ''failed'')"

definition toy_loads :: "str \<Rightarrow> exn + json" where
  "toy_loads s =
     (if s = lit ''{}'' then Inr (JObj [])
      else if s = lit ''[]'' then Inr (JArr [])
      else if s = lit ''{\"confidence\": 5}'' then Inr (JObj [(lit ''confidence'', JInt 5)])
      else if s = lit ''[\"hi\"]'' then Inr (JArr [JStr (lit ''hi'')])
      else if s = lit ''[\"a good message\", \"another message\"]''
        then Inr (JArr [JStr (lit ''a good message''), JStr (lit ''another message'')])
      else if s = lit ''7'' then Inr (JInt 7)
      else Inl (Exn ValueError (lit ''Expecting value'')))"

definition toy_model :: "str \<Rightarrow> exn + response" where
  "toy_model p =
     (if contains (lit ''good'') p
      then Inr \<lparr>text_attr = Some (lit ''{}''), candidate_text = None\<rparr>
      else if contains (lit ''five'') p
      then Inr \<lparr>text_attr = Some (lit ''Here: {\"confidence\": 5}''), candidate_text = None\<rparr>
      else Inl lib_error)"

definition test_env :: env where
  "test_env = \<lparr>uni_alnum = (\<lambda>c. False), py_lower = ascii_lower, bs_get_text = (\<lambda>s. s),
     pdf_reader = (\<lambda>d. Inl lib_error), pdfminer_extract_text = (\<lambda>d. Inl lib_error),
     utf8_ignore = (\<lambda>d. Inr (map unat (filter (\<lambda>b. b < 128) d))),
     json_loads = toy_loads, float_of_str = (\<lambda>s. None), float_of_big = (\<lambda>i. None),
     prompt_head = [], generate_content = toy_model\<rparr>"

definition good_file :: upload where
  "good_file = \<lparr>filename = Some (lit ''note.txt''),
     file_read = Inr (map of_nat (lit ''a good message from a file''))\<rparr>"


text \<open>The same environment with a second PDF reader that extracts a text.\<close>

definition pdfminer_env :: env where
  "pdfminer_env = test_env\<lparr>pdfminer_extract_text := (\<lambda>d. Inr (Some (lit ''page text'')))\<rparr>"

section \<open>Reference notions for the statements\<close>




text \<open>A confidence in the closed interval from 0 to 1.\<close>

definition in_unit :: "pyfloat \<Rightarrow> bool" where
  "in_unit f = (case f of Finite r \<Rightarrow> 0 \<le> r \<and> r \<le> 1 | _ \<Rightarrow> False)"

text \<open>The number of characters of a text that are not whitespace.\<close>

definition non_ws_length :: "str \<Rightarrow> nat" where
  "non_ws_length s = length (filter (\<lambda>c. \<not> is_space c) s)"

text \<open>The shapes of a payload field on which the normalization goes through.\<close>

definition hashable :: "json \<Rightarrow> bool" where
  "hashable v = (case v of JArr xs \<Rightarrow> False | JObj kvs \<Rightarrow> False | _ \<Rightarrow> True)"

definition str_or_falsy :: "json \<Rightarrow> bool" where
  "str_or_falsy v = (case v of JStr s \<Rightarrow> True | _ \<Rightarrow> \<not> truthy v)"

definition float_accepts :: "env \<Rightarrow> json \<Rightarrow> bool" where
  "float_accepts e v =
     (case v of
        JBool b \<Rightarrow> True
      | JFloat f \<Rightarrow> True
      | JInt i \<Rightarrow> \<bar>i\<bar> \<le> 2 ^ 53 \<or> float_of_big e i \<noteq> None
      | JStr s \<Rightarrow> float_of_str e s \<noteq> None
      | _ \<Rightarrow> False)"

definition field :: "(str \<times> json) list \<Rightarrow> string \<Rightarrow> json option" where
  "field kvs k = map_of kvs (lit k)"

text \<open>
  The outcome of an extraction strategy counts as content when it did not raise and left
  something other than whitespace.
\<close>

definition yields_content :: "exn + str \<Rightarrow> bool" where
  "yields_content r = (case r of Inl x \<Rightarrow> False | Inr c \<Rightarrow> strip c \<noteq> [])"

definition is_list :: "json \<Rightarrow> bool" where
  "is_list v = (case v of JArr xs \<Rightarrow> True | _ \<Rightarrow> False)"

definition loads_list :: "env \<Rightarrow> str \<Rightarrow> bool" where
  "loads_list e t = (case json_loads e t of Inl x \<Rightarrow> False | Inr v \<Rightarrow> is_list v)"

text \<open>A text in which no two neighbouring characters are both whitespace.\<close>

fun ws_free :: "str \<Rightarrow> bool" where
  "ws_free [] = True"
| "ws_free [c] = True"
| "ws_free (c # d # cs) = (\<not> (is_space c \<and> is_space d) \<and> ws_free (d # cs))"

section \<open>Evaluation\<close>

text \<open>The definitions of the evaluation environment, unfolded together.\<close>

lemmas eval_env = test_env_def toy_model_def toy_loads_def ascii_lower_def lib_error_def lit_def

text \<open>The definitions that evaluate \<open>clean_email_text\<close> on a concrete text.\<close>

lemmas eval_clean = clean_email_text_def has_markup_def starts_with_def splitlines_def
  strip_def is_space_def is_linebreak_def header_re_match_def header_labels_def ci_eq_def
  colon_follows_def url_match_def url_scheme_def blank_noise_def allowed_def is_word_def
  ascii_alnum_def Let_def

text \<open>The definitions that evaluate a classification on a concrete text.\<close>

lemmas eval_classify = classify_with_gemini_def model_payload_def build_user_prompt_def
  output_text_def or_empty_def parse_json_strict_def slice_def normalize_payload_def
  payload_category_def payload_intent_def payload_confidence_def payload_reply_def
  dict_get_def in_str_set_def normalize_intent_def py_float_def py_strip_def
  starts_with_def Let_def

lemma strip_Nil: "strip [] = []"
  by (simp add: strip_def)

lemma strip_keep: "s \<noteq> [] \<Longrightarrow> \<not> is_space (hd s) \<Longrightarrow> \<not> is_space (last s) \<Longrightarrow> strip s = s"
proof -
  assume a: "s \<noteq> []" "\<not> is_space (hd s)" "\<not> is_space (last s)"
  then have "dropWhile is_space s = s" by (simp add: dropWhile_eq_self_iff)
  moreover from a have "dropWhile is_space (rev s) = rev s"
    by (simp add: dropWhile_eq_self_iff hd_rev)
  ultimately show ?thesis by (simp add: strip_def)
qed


section \<open>Properties of the text normalizer\<close>

subsection \<open>Characters of the cleaned text\<close>

lemma strip_subset: "set (strip s) \<subseteq> set s"
proof -
  have "set (dropWhile is_space (rev (dropWhile is_space s))) \<subseteq> set (rev (dropWhile is_space s))"
    by (rule set_dropWhileD [THEN subsetI]) 
  moreover have "set (dropWhile is_space s) \<subseteq> set s"
    by (rule set_dropWhileD [THEN subsetI])
  ultimately show ?thesis by (auto simp: strip_def)
qed

lemma starts_with_subset: "starts_with p s \<Longrightarrow> set p \<subseteq> set s"
proof -
  assume "starts_with p s"
  then have "p = take (length p) s" by (simp add: starts_with_def)
  then have "set p = set (take (length p) s)" by simp
  then show ?thesis using set_take_subset [of "length p" s] by simp
qed

lemma contains_subset: "contains p s \<Longrightarrow> set p \<subseteq> set s"
proof (induction s)
  case Nil
  then show ?case by simp
next
  case (Cons c cs)
  from Cons.prems have "starts_with p (c # cs) \<or> contains p cs" by simp
  then show ?case
  proof
    assume "starts_with p (c # cs)"
    then show ?thesis by (rule starts_with_subset)
  next
    assume "contains p cs"
    then have "set p \<subseteq> set cs" by (rule Cons.IH)
    then show ?thesis by auto
  qed
qed

lemma url_match_slash: "url_match s = Some r \<Longrightarrow> 47 \<in> set s"
proof -
  assume "url_match s = Some r"
  then have "starts_with (lit ''https://'') s \<or> starts_with (lit ''http://'') s"
    by (auto simp: url_match_def url_scheme_def split: option.splits if_splits)
  then have "set (lit ''https://'') \<subseteq> set s \<or> set (lit ''http://'') \<subseteq> set s"
    by (auto dest: starts_with_subset)
  then show ?thesis by (auto simp: lit_def)
qed

lemma url_match_subset: "url_match s = Some r \<Longrightarrow> set r \<subseteq> set s"
proof -
  assume "url_match s = Some r"
  then obtain n c cs where d: "drop n s = c # cs"
    and r: "r = dropWhile (\<lambda>x. \<not> is_space x) cs"
    by (auto simp: url_match_def split: option.splits list.splits if_splits)
  have "set r \<subseteq> set cs" unfolding r by (rule set_dropWhileD [THEN subsetI])
  also have "\<dots> \<subseteq> set (drop n s)" using d by auto
  also have "\<dots> \<subseteq> set s" by (rule set_drop_subset)
  finally show ?thesis .
qed

lemma remove_urls_id: "47 \<notin> set s \<Longrightarrow> remove_urls s = s"
proof (induction s)
  case Nil
  show ?case by simp
next
  case (Cons c cs)
  have "url_match (c # cs) = None"
  proof (cases "url_match (c # cs)")
    case None
    then show ?thesis .
  next
    case (Some r)
    then have "47 \<in> set (c # cs)" by (rule url_match_slash)
    with Cons.prems show ?thesis by simp
  qed
  with Cons show ?case by simp
qed

lemma remove_urls_subset: "set (remove_urls s) \<subseteq> insert 32 (set s)"
proof (induction s rule: remove_urls.induct)
  case 1
  show ?case by simp
next
  case (2 c cs)
  show ?case
  proof (cases "url_match (c # cs)")
    case None
    with 2 show ?thesis by auto
  next
    case (Some r)
    with 2 have "set (remove_urls r) \<subseteq> insert 32 (set r)" by simp
    moreover from Some have "set r \<subseteq> set (c # cs)" by (rule url_match_subset)
    ultimately show ?thesis using Some by auto
  qed
qed

lemma blank_noise_allowed: "c \<in> set (blank_noise e s) \<Longrightarrow> allowed e c"
  by (auto simp: blank_noise_def allowed_def is_space_def)

lemma blank_noise_subset: "set (blank_noise e s) \<subseteq> insert 32 (set s)"
  by (auto simp: blank_noise_def)

lemma blank_noise_id: "\<forall>c\<in>set s. allowed e c \<Longrightarrow> blank_noise e s = s"
  by (simp add: blank_noise_def map_idI)

lemma collapse_ws_subset: "set (collapse_ws s) \<subseteq> insert 32 (set s)"
proof (induction s rule: collapse_ws.induct)
  case 1
  show ?case by simp
next
  case (2 c)
  show ?case by simp
next
  case (3 c d cs)
  have "set (dropWhile is_space cs) \<subseteq> set cs" by (rule set_dropWhileD [THEN subsetI])
  with 3 show ?case by auto
qed

lemma join_sp_subset: "set (join_sp ls) \<subseteq> insert 32 (\<Union> (set ` set ls))"
  by (induction ls rule: join_sp.induct) auto

lemma keep_lines_strip: "l \<in> set (keep_lines ls) \<Longrightarrow> \<exists>k\<in>set ls. l = strip k"
  by (induction ls) (auto simp: Let_def split: if_splits)

lemma splitlines_from_no_break:
  "list_all (\<lambda>c. \<not> is_linebreak c) cur
   \<Longrightarrow> list_all (list_all (\<lambda>c. \<not> is_linebreak c)) (splitlines_from cur s)"
  by (induction cur s rule: splitlines_from.induct) simp_all

lemma splitlines_no_break:
  "l \<in> set (splitlines s) \<Longrightarrow> c \<in> set l \<Longrightarrow> \<not> is_linebreak c"
  using splitlines_from_no_break [of "[]" s]
  by (simp add: splitlines_def list_all_iff)

lemma splitlines_single:
  "\<forall>c\<in>set s. \<not> is_linebreak c \<Longrightarrow> cur @ s \<noteq> [] \<Longrightarrow> splitlines_from (rev cur) s = [cur @ s]"
proof (induction s arbitrary: cur)
  case Nil
  then show ?case by simp
next
  case (Cons c cs)
  show ?case
  proof (cases cs)
    case Nil
    with Cons.prems show ?thesis by simp
  next
    case (Cons d ds)
    from Cons.prems have "\<not> is_linebreak c" by simp
    then have n13: "c \<noteq> 13" by (auto simp: is_linebreak_def)
    have "splitlines_from (rev (cur @ [c])) cs = [(cur @ [c]) @ cs]"
      using Cons.prems by (intro Cons.IH) auto
    with Cons.prems n13 Cons show ?thesis by simp
  qed
qed


subsection \<open>Whitespace runs\<close>

lemma ws_free_Cons:
  "ws_free (c # t) \<longleftrightarrow> (t = [] \<or> \<not> (is_space c \<and> is_space (hd t))) \<and> ws_free t"
  by (cases t) auto

lemma ws_free_append:
  "ws_free (a @ b) \<longleftrightarrow>
     ws_free a \<and> ws_free b \<and> (a = [] \<or> b = [] \<or> \<not> (is_space (last a) \<and> is_space (hd b)))"
proof (induction a)
  case Nil
  show ?case by simp
next
  case (Cons c a)
  show ?case
  proof (cases a)
    case Nil
    then show ?thesis by (auto simp: ws_free_Cons)
  next
    case (Cons d ds)
    with Cons.IH show ?thesis by (auto simp: ws_free_Cons)
  qed
qed

lemma ws_free_rev: "ws_free (rev s) = ws_free s"
proof (induction s)
  case Nil
  show ?case by simp
next
  case (Cons c s)
  then show ?case
    by (cases s) (auto simp: ws_free_append ws_free_Cons last_rev)
qed

lemma ws_free_dropWhile: "ws_free s \<Longrightarrow> ws_free (dropWhile P s)"
  by (induction s) (auto simp: ws_free_Cons)

lemma ws_free_strip: "ws_free s \<Longrightarrow> ws_free (strip s)"
  by (simp add: strip_def ws_free_rev ws_free_dropWhile)

lemma collapse_ws_head:
  "s \<noteq> [] \<Longrightarrow> \<not> is_space (hd s) \<Longrightarrow> collapse_ws s \<noteq> [] \<and> hd (collapse_ws s) = hd s"
proof (cases s)
  case Nil
  assume "s \<noteq> []"
  with Nil show ?thesis by simp
next
  case (Cons c cs)
  assume "\<not> is_space (hd s)"
  with Cons show ?thesis by (cases cs) auto
qed

lemma collapse_ws_free: "ws_free (collapse_ws s)"
proof (induction s rule: collapse_ws.induct)
  case 1
  show ?case by simp
next
  case (2 c)
  show ?case by simp
next
  case (3 c d cs)
  show ?case
  proof (cases "is_space c \<and> is_space d")
    case True
    let ?r = "dropWhile is_space cs"
    from True 3 have f: "ws_free (collapse_ws ?r)" by simp
    have "collapse_ws ?r = [] \<or> \<not> is_space (hd (collapse_ws ?r))"
    proof (cases "?r = []")
      case True
      have "collapse_ws ?r = []" unfolding True by simp
      then show ?thesis ..
    next
      case False
      then have "\<not> is_space (hd ?r)" by (rule hd_dropWhile)
      with False show ?thesis by (simp add: collapse_ws_head)
    qed
    with f True show ?thesis by (auto simp: ws_free_Cons)
  next
    case False
    with 3 have f: "ws_free (collapse_ws (d # cs))" by simp
    have "\<not> is_space d \<Longrightarrow> hd (collapse_ws (d # cs)) = d"
      using collapse_ws_head [of "d # cs"] by simp
    with False f show ?thesis by (auto simp: ws_free_Cons)
  qed
qed

lemma collapse_ws_id: "ws_free s \<Longrightarrow> collapse_ws s = s"
  by (induction s rule: collapse_ws.induct) auto

subsection \<open>Ends of a stripped text\<close>

lemma last_dropWhile: "dropWhile P s \<noteq> [] \<Longrightarrow> last (dropWhile P s) = last s"
  by (induction s) (auto split: if_splits)

lemma strip_ends:
  assumes "strip s \<noteq> []"
  shows "\<not> is_space (hd (strip s)) \<and> \<not> is_space (last (strip s))"
proof -
  let ?a = "dropWhile is_space s"
  let ?b = "dropWhile is_space (rev ?a)"
  from assms have b: "?b \<noteq> []" by (simp add: strip_def)
  have a: "?a \<noteq> []"
  proof
    assume e: "?a = []"
    have "?b = []" unfolding e by simp
    then show False by (rule notE [OF b])
  qed
  from b have "\<not> is_space (hd ?b)" by (rule hd_dropWhile)
  then have l: "\<not> is_space (last (strip s))" using b by (simp add: strip_def last_rev)
  from b have "last ?b = last (rev ?a)" by (rule last_dropWhile)
  then have "last ?b = hd ?a" using a by (simp add: last_rev)
  moreover from a have "\<not> is_space (hd ?a)" by (rule hd_dropWhile)
  ultimately have "\<not> is_space (hd (strip s))" using b by (simp add: strip_def hd_rev)
  with l show ?thesis by simp
qed


subsection \<open>Shape of a cleaned text\<close>

lemma clean_form:
  assumes "clean_email_text e x \<noteq> []"
  shows "\<exists>r. clean_email_text e x
           = strip (collapse_ws (blank_noise e (remove_urls (join_sp (keep_lines (splitlines r))))))"
    and "10 \<le> length (clean_email_text e x)"
  using assms by (auto simp: clean_email_text_def Let_def split: if_splits)

lemma not_allowed_marks: "\<not> allowed e 60" "\<not> allowed e 62" "\<not> allowed e 47"
  by (simp_all add: allowed_def is_word_def ascii_alnum_def is_space_def)

lemma space_not_break: "\<not> is_linebreak 32"
  by (simp add: is_linebreak_def)

lemma kept_line_no_break:
  assumes "l \<in> set (keep_lines (splitlines r))" and "c \<in> set l"
  shows "\<not> is_linebreak c"
proof -
  from assms(1) obtain k where k: "k \<in> set (splitlines r)" and l: "l = strip k"
    by (auto dest: keep_lines_strip)
  from assms(2) l have "c \<in> set k" using strip_subset [of k] by auto
  with k show ?thesis by (rule splitlines_no_break)
qed

lemma cleaned_chars:
  assumes "c \<in> set (strip (collapse_ws (blank_noise e (remove_urls (join_sp ls)))))"
  shows "allowed e c"
    and "(\<forall>l\<in>set ls. \<forall>d\<in>set l. \<not> is_linebreak d) \<Longrightarrow> \<not> is_linebreak c"
proof -
  let ?u = "remove_urls (join_sp ls)"
  from assms have "c \<in> set (collapse_ws (blank_noise e ?u))"
    using strip_subset by auto
  then have c: "c = 32 \<or> c \<in> set (blank_noise e ?u)"
    using collapse_ws_subset by auto
  then show "allowed e c"
    by (auto simp: blank_noise_allowed) (simp add: allowed_def is_space_def)
  assume nb: "\<forall>l\<in>set ls. \<forall>d\<in>set l. \<not> is_linebreak d"
  from c have "c = 32 \<or> c \<in> set ?u" using blank_noise_subset by auto
  then have "c = 32 \<or> c \<in> set (join_sp ls)" using remove_urls_subset by auto
  then have "c = 32 \<or> (\<exists>l\<in>set ls. c \<in> set l)" using join_sp_subset by auto
  with nb show "\<not> is_linebreak c" by (auto simp: space_not_break)
qed

subsection \<open>Idempotence\<close>

text \<open>
  C1, as the code has it. Provided \<open>str.lower\<close> never produces the character \<open><\<close> from a
  text without it, \<open>clean_email_text\<close> is idempotent on every text whose cleaned form has
  length at least 10 and does not itself begin with a header label followed by a colon.
\<close>

theorem clean_idempotent_unless_header:
  assumes low: "\<forall>s. 60 \<in> set (py_lower e s) \<longrightarrow> 60 \<in> set s"
    and len: "10 \<le> length (clean_email_text e x)"
    and hdr: "\<not> header_re_match (clean_email_text e x)"
  shows "clean_email_text e (clean_email_text e x) = clean_email_text e x"
proof -
  define y where "y = clean_email_text e x"
  from len have ne: "y \<noteq> []" by (auto simp: y_def)
  then obtain r where
    form: "y = strip (collapse_ws (blank_noise e (remove_urls (join_sp (keep_lines (splitlines r))))))"
    using clean_form(1) [of e x] by (auto simp: y_def)
  have al: "\<forall>c\<in>set y. allowed e c"
    unfolding form by (auto dest: cleaned_chars(1))
  have nb: "\<forall>c\<in>set y. \<not> is_linebreak c"
  proof
    fix c
    assume "c \<in> set y"
    then have "c \<in> set (strip (collapse_ws (blank_noise e (remove_urls
        (join_sp (keep_lines (splitlines r)))))))"
      by (simp add: form [symmetric])
    moreover have "\<forall>l\<in>set (keep_lines (splitlines r)). \<forall>d\<in>set l. \<not> is_linebreak d"
      by (auto dest: kept_line_no_break)
    ultimately show "\<not> is_linebreak c" by (rule cleaned_chars(2))
  qed
  have wf: "ws_free y"
    unfolding form by (intro ws_free_strip collapse_ws_free)
  from ne have "strip (collapse_ws (blank_noise e (remove_urls
        (join_sp (keep_lines (splitlines r)))))) \<noteq> []"
    by (simp add: form [symmetric])
  then have ends: "\<not> is_space (hd y) \<and> \<not> is_space (last y)"
    unfolding form by (rule strip_ends)
  from al have n60: "60 \<notin> set y" and n62: "62 \<notin> set y" and n47: "47 \<notin> set y"
    using not_allowed_marks [of e] by auto
  have mk: "\<not> has_markup e y"
  proof
    assume "has_markup e y"
    then have "set (lit ''<html'') \<subseteq> set (py_lower e y)
        \<or> set (lit ''<div'') \<subseteq> set (py_lower e y)
        \<or> set (lit ''<br'') \<subseteq> set (py_lower e y)"
      by (auto simp: has_markup_def dest: contains_subset)
    then have "60 \<in> set (py_lower e y)" by (auto simp: lit_def)
    with low have "60 \<in> set y" by simp
    with n60 show False by simp
  qed
  have sl: "splitlines y = [y]"
    using splitlines_single [of y "[]"] nb ne by (simp add: splitlines_def)
  have st: "strip y = y"
    using ne ends by (simp add: strip_keep)
  have sw: "\<not> starts_with [62] y"
  proof
    assume "starts_with [62] y"
    then have "set [62] \<subseteq> set y" by (rule starts_with_subset)
    with n62 show False by simp
  qed
  from len have l3: "\<not> length y < 3" and l10: "\<not> length y < 10" by (simp_all add: y_def)
  from hdr have nh: "\<not> header_re_match y" by (simp add: y_def)
  have kl: "keep_lines [y] = [y]"
    using ne nh sw l3 by (simp add: Let_def st)
  have ru: "remove_urls y = y" using n47 by (rule remove_urls_id)
  have bn: "blank_noise e y = y" using al by (rule blank_noise_id)
  have cw: "collapse_ws y = y" using wf by (rule collapse_ws_id)
  have "clean_email_text e y = y"
    by (simp add: clean_email_text_def [of e y] ne mk sl kl ru bn cw st l10 Let_def
        del: keep_lines.simps)
  then show ?thesis by (simp add: y_def)
qed

text \<open>A text with a doubled space, a URL and nothing else to remove.\<close>

lemma ascii_lower_no_lt: "\<forall>s. 60 \<in> set (py_lower test_env s) \<longrightarrow> 60 \<in> set s"
  by (auto simp: test_env_def ascii_lower_def)

lemma clean_greeting:
  "clean_email_text test_env (lit ''Hello  team, see https://x.y/z now!'') = lit ''Hello team, see now!''"
  by (simp add: eval_clean eval_env)

theorem clean_idempotent_unless_header_witness:
  "clean_email_text test_env (lit ''Hello team, see now!'') = lit ''Hello team, see now!''"
proof -
  have l: "10 \<le> length (clean_email_text test_env (lit ''Hello  team, see https://x.y/z now!''))"
    by (simp add: clean_greeting) (simp add: lit_def)
  have h: "\<not> header_re_match (clean_email_text test_env (lit ''Hello  team, see https://x.y/z now!''))"
    by (simp add: clean_greeting)
      (simp add: header_re_match_def header_labels_def ci_eq_def colon_follows_def lit_def)
  from clean_idempotent_unless_header [OF ascii_lower_no_lt l h] show ?thesis
    by (simp add: clean_greeting)
qed

text \<open>
  C1 as stated fails: the line \<open>@From: hello world and more\<close> is kept, the \<open>@\<close> is blanked
  and trimmed away, and the result \<open>From: hello world and more\<close>, of length 26, is a
  header line that a second cleaning drops, leaving the empty string.
\<close>

theorem clean_exposes_header:
  "clean_email_text test_env (lit ''@From: hello world and more'') = lit ''From: hello world and more''
   \<and> 10 \<le> length (lit ''From: hello world and more'')
   \<and> clean_email_text test_env (lit ''From: hello world and more'') = []"
proof -
  have a: "clean_email_text test_env (lit ''@From: hello world and more'') = lit ''From: hello world and more''"
    by (simp add: eval_clean eval_env)
  have b: "10 \<le> length (lit ''From: hello world and more'')"
    by (simp add: lit_def)
  have c: "clean_email_text test_env (lit ''From: hello world and more'') = []"
    by (simp add: eval_clean eval_env)
  from a b c show ?thesis by simp
qed


section \<open>Properties of the classification client\<close>

subsection \<open>Locating the JSON region\<close>













subsection \<open>Normalization of the payload\<close>

lemma default_reply_nonempty: "default_reply \<noteq> []"
  by (simp add: default_reply_def lit_def)

lemma outros_is_intent: "s_outros \<in> set intents"
  by (simp add: intents_def)

lemma normalize_intent_ok:
  assumes "str_or_falsy v"
  shows "\<exists>i. normalize_intent e v = Inr i \<and> i \<in> set intents"
proof (cases "truthy v")
  case False
  then show ?thesis by (simp add: normalize_intent_def outros_is_intent)
next
  case True
  with assms obtain s where "v = JStr s"
    by (cases v) (simp_all add: str_or_falsy_def)
  with True show ?thesis
    by (simp add: normalize_intent_def py_strip_def Let_def outros_is_intent)
qed

lemma payload_category_ok:
  assumes "case field kvs ''category'' of None \<Rightarrow> True | Some v \<Rightarrow> hashable v"
  shows "\<exists>c. payload_category (JObj kvs) = Inr c \<and> c \<in> {s_produtivo, s_improdutivo}"
proof (cases "field kvs ''category''")
  case None
  then show ?thesis
    by (simp add: payload_category_def dict_get_def field_def in_str_set_def)
next
  case (Some v)
  with assms have "hashable v" by simp
  with Some show ?thesis
    by (cases v) (auto simp: payload_category_def dict_get_def field_def in_str_set_def hashable_def)
qed

lemma payload_intent_ok:
  assumes "case field kvs ''intent'' of None \<Rightarrow> True | Some v \<Rightarrow> str_or_falsy v"
  shows "\<exists>i. payload_intent e (JObj kvs) = Inr i \<and> i \<in> set intents"
proof (cases "field kvs ''intent''")
  case None
  then show ?thesis
    by (simp add: payload_intent_def dict_get_def field_def normalize_intent_def outros_is_intent)
next
  case (Some v)
  with assms have "str_or_falsy v" by simp
  from normalize_intent_ok [OF this, of e] Some show ?thesis
    by (simp add: payload_intent_def dict_get_def field_def)
qed

lemma py_float_ok: "float_accepts e v \<Longrightarrow> \<exists>f. py_float e v = Inr f"
  by (cases v) (auto simp: float_accepts_def py_float_def)

lemma payload_confidence_ok:
  assumes "case field kvs ''confidence'' of None \<Rightarrow> True | Some v \<Rightarrow> float_accepts e v"
  shows "\<exists>f. payload_confidence e (JObj kvs) = Inr f
     \<and> (case field kvs ''confidence'' of None \<Rightarrow> f = Finite (7 / 10)
         | Some v \<Rightarrow> py_float e v = Inr f)"
proof (cases "field kvs ''confidence''")
  case None
  then show ?thesis
    by (simp add: payload_confidence_def dict_get_def field_def py_float_def)
next
  case (Some v)
  with assms have "float_accepts e v" by simp
  from py_float_ok [OF this] Some show ?thesis
    by (auto simp: payload_confidence_def dict_get_def field_def)
qed

lemma payload_reply_ok:
  assumes "case field kvs ''suggested_reply'' of None \<Rightarrow> True | Some v \<Rightarrow> str_or_falsy v"
  shows "\<exists>r. payload_reply (JObj kvs) = Inr r \<and> r \<noteq> []"
proof (cases "field kvs ''suggested_reply''")
  case None
  then show ?thesis
    by (simp add: payload_reply_def dict_get_def field_def py_strip_def strip_Nil
        default_reply_nonempty)
next
  case (Some v)
  with assms have s: "str_or_falsy v" by simp
  show ?thesis
  proof (cases "truthy v")
    case False
    with Some show ?thesis
      by (simp add: payload_reply_def dict_get_def field_def py_strip_def strip_Nil
          default_reply_nonempty)
  next
    case True
    with s obtain t where "v = JStr t"
      by (cases v) (simp_all add: str_or_falsy_def)
    with True Some show ?thesis
      by (simp add: payload_reply_def dict_get_def field_def py_strip_def
          default_reply_nonempty)
  qed
qed

text \<open>
  C3, as the code has it. The normalization of a parsed JSON object completes, and gives
  a category that is Produtivo or Improdutivo, one of the seven intents and a reply that
  is not empty, whenever the category is absent or hashable, the intent and the reply
  are each absent, falsy or a string, and the confidence is absent or a value that
  \<open>float\<close> accepts (a number in range, a boolean or a numeric string). The confidence is
  0.7 when the field is absent and the conversion of the field otherwise.
\<close>

theorem normalize_payload_completes:
  assumes "case field kvs ''category'' of None \<Rightarrow> True | Some v \<Rightarrow> hashable v"
    and "case field kvs ''intent'' of None \<Rightarrow> True | Some v \<Rightarrow> str_or_falsy v"
    and "case field kvs ''confidence'' of None \<Rightarrow> True | Some v \<Rightarrow> float_accepts e v"
    and "case field kvs ''suggested_reply'' of None \<Rightarrow> True | Some v \<Rightarrow> str_or_falsy v"
  shows "\<exists>r. normalize_payload e (JObj kvs) = Inr r
     \<and> category r \<in> {s_produtivo, s_improdutivo}
     \<and> intent r \<in> set intents
     \<and> suggested_reply r \<noteq> []
     \<and> (case field kvs ''confidence'' of None \<Rightarrow> confidence r = Finite (7 / 10)
         | Some v \<Rightarrow> py_float e v = Inr (confidence r))"
proof -
  from payload_category_ok [OF assms(1)] obtain c
    where c: "payload_category (JObj kvs) = Inr c" "c \<in> {s_produtivo, s_improdutivo}"
    by blast
  from payload_intent_ok [OF assms(2)] obtain i
    where i: "payload_intent e (JObj kvs) = Inr i" "i \<in> set intents"
    by blast
  from payload_confidence_ok [OF assms(3)] obtain f
    where f: "payload_confidence e (JObj kvs) = Inr f"
      "case field kvs ''confidence'' of None \<Rightarrow> f = Finite (7 / 10)
         | Some v \<Rightarrow> py_float e v = Inr f"
    by blast
  from payload_reply_ok [OF assms(4)] obtain r
    where r: "payload_reply (JObj kvs) = Inr r" "r \<noteq> []"
    by blast
  have "normalize_payload e (JObj kvs)
      = Inr \<lparr>rid = None, category = c, confidence = f, suggested_reply = r, intent = i\<rparr>"
    by (simp add: normalize_payload_def c(1) i(1) f(1) r(1))
  with c(2) i(2) f(2) r(2) show ?thesis by (auto split: option.splits)
qed

theorem normalize_payload_completes_witness:
  "\<exists>r. normalize_payload test_env (JObj [(lit ''confidence'', JInt 1), (lit ''intent'', JNull)]) = Inr r
     \<and> category r \<in> {s_produtivo, s_improdutivo}
     \<and> intent r \<in> set intents
     \<and> suggested_reply r \<noteq> []
     \<and> confidence r = Finite 1"
proof -
  let ?kvs = "[(lit ''confidence'', JInt 1), (lit ''intent'', JNull)]"
  have a: "field ?kvs ''category'' = None" by (simp add: field_def lit_def)
  have b: "field ?kvs ''intent'' = Some JNull" by (simp add: field_def lit_def)
  have c: "field ?kvs ''confidence'' = Some (JInt 1)" by (simp add: field_def lit_def)
  have d: "field ?kvs ''suggested_reply'' = None" by (simp add: field_def lit_def)
  have h1: "case field ?kvs ''category'' of None \<Rightarrow> True | Some v \<Rightarrow> hashable v"
    by (simp add: a)
  have h2: "case field ?kvs ''intent'' of None \<Rightarrow> True | Some v \<Rightarrow> str_or_falsy v"
    by (simp add: b str_or_falsy_def)
  have h3: "case field ?kvs ''confidence'' of None \<Rightarrow> True | Some v \<Rightarrow> float_accepts test_env v"
    by (simp add: c float_accepts_def)
  have h4: "case field ?kvs ''suggested_reply'' of None \<Rightarrow> True | Some v \<Rightarrow> str_or_falsy v"
    by (simp add: d)
  have p: "py_float test_env (JInt 1) = Inr (Finite 1)" by (simp add: py_float_def)
  from normalize_payload_completes [OF h1 h2 h3 h4] show ?thesis
    by (auto simp: c p)
qed

text \<open>
  C3 as stated fails: with confidence \<open>null\<close> the normalization raises a \<open>TypeError\<close>,
  with the string \<open>high\<close> a \<open>ValueError\<close>.
\<close>

theorem normalize_payload_raises:
  "normalize_payload test_env (JObj [(lit ''confidence'', JNull)]) = Inl (Exn TypeError (lit ''float''))
   \<and> normalize_payload test_env (JObj [(lit ''confidence'', JStr (lit ''high''))])
       = Inl (Exn ValueError (lit ''float''))"
  by (simp add: normalize_payload_def payload_category_def payload_intent_def
      payload_confidence_def dict_get_def in_str_set_def normalize_intent_def py_float_def
      test_env_def) (simp add: lit_def)


subsection \<open>Range of the confidence\<close>

lemma classify_payload:
  "model_payload e t = Inr data \<Longrightarrow> classify_with_gemini e t = normalize_payload e data"
  by (simp add: classify_with_gemini_def)

lemma normalize_payload_confidence:
  assumes "normalize_payload e data = Inr r"
  shows "payload_confidence e data = Inr (confidence r)"
  using assms by (auto simp: normalize_payload_def split: sum.splits)

text \<open>
  C4, as the code has it. The confidence of a result is \<open>float\<close> of the payload's
  confidence field, or 0.7 when the field is absent; nothing clamps it, so it lies in
  the interval from 0 to 1 exactly when that value does.
\<close>

theorem confidence_is_unclamped:
  assumes "model_payload e t = Inr (JObj kvs)"
    and "classify_with_gemini e t = Inr r"
  shows "(case field kvs ''confidence'' of
            None \<Rightarrow> confidence r = Finite (7 / 10)
          | Some v \<Rightarrow> py_float e v = Inr (confidence r))
     \<and> (in_unit (confidence r) \<longleftrightarrow>
          (case field kvs ''confidence'' of
             None \<Rightarrow> True
           | Some v \<Rightarrow> (case py_float e v of Inl x \<Rightarrow> False | Inr f \<Rightarrow> in_unit f)))"
proof -
  from assms have "normalize_payload e (JObj kvs) = Inr r"
    by (simp add: classify_payload)
  then have p: "payload_confidence e (JObj kvs) = Inr (confidence r)"
    by (rule normalize_payload_confidence)
  show ?thesis
  proof (cases "field kvs ''confidence''")
    case None
    with p have "confidence r = Finite (7 / 10)"
      by (simp add: payload_confidence_def dict_get_def field_def py_float_def)
    with None show ?thesis by (simp add: in_unit_def)
  next
    case (Some v)
    with p have "py_float e v = Inr (confidence r)"
      by (simp add: payload_confidence_def dict_get_def field_def)
    with Some show ?thesis by simp
  qed
qed

lemma payload_good: "model_payload test_env (lit ''a good message'') = Inr (JObj [])"
  by (simp add: eval_classify eval_env)

theorem confidence_is_unclamped_witness:
  "classify_with_gemini test_env (lit ''a good message'')
     = Inr \<lparr>rid = None, category = s_improdutivo, confidence = Finite (7 / 10),
          suggested_reply = default_reply, intent = s_outros\<rparr>
   \<and> in_unit (Finite (7 / 10))"
proof -
  have c: "classify_with_gemini test_env (lit ''a good message'')
     = Inr \<lparr>rid = None, category = s_improdutivo, confidence = Finite (7 / 10),
          suggested_reply = default_reply, intent = s_outros\<rparr>"
    by (simp add: eval_classify eval_env strip_Nil)
  from confidence_is_unclamped [OF payload_good c] show ?thesis
    by (simp add: c field_def)
qed

text \<open>
  C4 as stated fails: for the payload \<open>{"confidence": 5}\<close> the result has confidence 5.
\<close>

theorem confidence_out_of_range:
  "classify_with_gemini test_env (lit ''give me five'')
     = Inr \<lparr>rid = None, category = s_improdutivo, confidence = Finite 5,
          suggested_reply = default_reply, intent = s_outros\<rparr>
   \<and> \<not> in_unit (Finite 5)"
proof -
  have "model_payload test_env (lit ''give me five'') = Inr (JObj [(lit ''confidence'', JInt 5)])"
    by (simp add: eval_classify eval_env)
  then have "classify_with_gemini test_env (lit ''give me five'')
     = normalize_payload test_env (JObj [(lit ''confidence'', JInt 5)])"
    by (rule classify_payload)
  also have "\<dots> = Inr \<lparr>rid = None, category = s_improdutivo, confidence = Finite 5,
          suggested_reply = default_reply, intent = s_outros\<rparr>"
    by (simp add: eval_classify strip_Nil) (simp add: lit_def)
  finally show ?thesis by (simp add: in_unit_def)
qed


section \<open>Properties of the document decoder\<close>

lemma long_enough_iff: "long_enough t \<longleftrightarrow> 100 < length (strip t)"
  by (auto simp: long_enough_def strip_Nil)

lemma read_pdf_total: "\<exists>s. read_pdf e d = Inr s"
  by (simp add: read_pdf_def read_pdf_pdfminer_def read_pdf_utf8_def read_pdf_latin1_def
      split: sum.splits)

lemma read_pdf_exhausted:
  assumes "\<not> yields_content (pypdf2_content e d)" and "\<not> yields_content (pdfminer_content e d)"
  shows "read_pdf e d = read_pdf_utf8 e d"
  using assms by (simp add: read_pdf_def read_pdf_pdfminer_def yields_content_def split: sum.splits)

text \<open>
  C6. \<open>read_file_bytes_to_text\<close> returns a string for every file name and every byte
  sequence, whatever the libraries raise. On a \<open>.pdf\<close> name the four strategies are tried
  in order, a strategy that raises or gives no content handing over to the next one: the
  result is the text of the first PDF reader when it has content, else that of the
  second reader when it has content, else the UTF-8 decoding when it passes its length
  test, else the Latin-1 decoding when that passes, and else the empty string. On any
  other name the result is the UTF-8 decoding, and the Latin-1 decoding when the UTF-8
  codec raises.
\<close>

theorem decoder_fallback_chain:
  "(\<exists>s. read_file_bytes_to_text e fname d = Inr s)
   \<and> (ends_with (lit ''.pdf'') (py_lower e fname) \<longrightarrow>
        (pypdf2_content e d = Inr c1 \<and> strip c1 \<noteq> []
           \<longrightarrow> read_file_bytes_to_text e fname d = Inr c1)
      \<and> (\<not> yields_content (pypdf2_content e d)
           \<and> pdfminer_content e d = Inr c2 \<and> strip c2 \<noteq> []
           \<longrightarrow> read_file_bytes_to_text e fname d = Inr c2)
      \<and> (\<not> yields_content (pypdf2_content e d)
           \<and> \<not> yields_content (pdfminer_content e d)
           \<and> utf8_ignore e d = Inr u \<and> long_enough u
           \<longrightarrow> read_file_bytes_to_text e fname d = Inr u)
      \<and> (\<not> yields_content (pypdf2_content e d)
           \<and> \<not> yields_content (pdfminer_content e d)
           \<and> (case utf8_ignore e d of Inl x \<Rightarrow> True | Inr t \<Rightarrow> \<not> long_enough t)
           \<and> long_enough (latin1_decode d)
           \<longrightarrow> read_file_bytes_to_text e fname d = Inr (latin1_decode d))
      \<and> (\<not> yields_content (pypdf2_content e d)
           \<and> \<not> yields_content (pdfminer_content e d)
           \<and> (case utf8_ignore e d of Inl x \<Rightarrow> True | Inr t \<Rightarrow> \<not> long_enough t)
           \<and> \<not> long_enough (latin1_decode d)
           \<longrightarrow> read_file_bytes_to_text e fname d = Inr []))
   \<and> (\<not> ends_with (lit ''.pdf'') (py_lower e fname) \<longrightarrow>
        (utf8_ignore e d = Inr u \<longrightarrow> read_file_bytes_to_text e fname d = Inr u)
      \<and> ((\<exists>x. utf8_ignore e d = Inl x)
           \<longrightarrow> read_file_bytes_to_text e fname d = Inr (latin1_decode d)))"
proof (intro conjI impI)
  show "\<exists>s. read_file_bytes_to_text e fname d = Inr s"
    by (simp add: read_file_bytes_to_text_def read_pdf_total split: sum.splits)
next
  assume "ends_with (lit ''.pdf'') (py_lower e fname)"
    and "pypdf2_content e d = Inr c1 \<and> strip c1 \<noteq> []"
  then show "read_file_bytes_to_text e fname d = Inr c1"
    by (simp add: read_file_bytes_to_text_def read_pdf_def)
next
  assume p: "ends_with (lit ''.pdf'') (py_lower e fname)"
    and a: "\<not> yields_content (pypdf2_content e d)
           \<and> pdfminer_content e d = Inr c2 \<and> strip c2 \<noteq> []"
  then have "read_pdf e d = read_pdf_pdfminer e d"
    by (simp add: read_pdf_def yields_content_def split: sum.splits)
  with p a show "read_file_bytes_to_text e fname d = Inr c2"
    by (simp add: read_file_bytes_to_text_def read_pdf_pdfminer_def)
next
  assume p: "ends_with (lit ''.pdf'') (py_lower e fname)"
    and a: "\<not> yields_content (pypdf2_content e d)
           \<and> \<not> yields_content (pdfminer_content e d)
           \<and> utf8_ignore e d = Inr u \<and> long_enough u"
  then have "read_pdf e d = read_pdf_utf8 e d" by (simp add: read_pdf_exhausted)
  with p a show "read_file_bytes_to_text e fname d = Inr u"
    by (simp add: read_file_bytes_to_text_def read_pdf_utf8_def)
next
  assume p: "ends_with (lit ''.pdf'') (py_lower e fname)"
    and a: "\<not> yields_content (pypdf2_content e d)
           \<and> \<not> yields_content (pdfminer_content e d)
           \<and> (case utf8_ignore e d of Inl x \<Rightarrow> True | Inr t \<Rightarrow> \<not> long_enough t)
           \<and> long_enough (latin1_decode d)"
  then have "read_pdf e d = read_pdf_utf8 e d" by (simp add: read_pdf_exhausted)
  moreover from a have "read_pdf_utf8 e d = Inr (latin1_decode d)"
    by (simp add: read_pdf_utf8_def read_pdf_latin1_def split: sum.splits)
  ultimately show "read_file_bytes_to_text e fname d = Inr (latin1_decode d)"
    using p by (simp add: read_file_bytes_to_text_def)
next
  assume p: "ends_with (lit ''.pdf'') (py_lower e fname)"
    and a: "\<not> yields_content (pypdf2_content e d)
           \<and> \<not> yields_content (pdfminer_content e d)
           \<and> (case utf8_ignore e d of Inl x \<Rightarrow> True | Inr t \<Rightarrow> \<not> long_enough t)
           \<and> \<not> long_enough (latin1_decode d)"
  then have "read_pdf e d = read_pdf_utf8 e d" by (simp add: read_pdf_exhausted)
  moreover from a have "read_pdf_utf8 e d = Inr []"
    by (simp add: read_pdf_utf8_def read_pdf_latin1_def split: sum.splits)
  ultimately show "read_file_bytes_to_text e fname d = Inr []"
    using p by (simp add: read_file_bytes_to_text_def)
next
  assume "\<not> ends_with (lit ''.pdf'') (py_lower e fname)" and "utf8_ignore e d = Inr u"
  then show "read_file_bytes_to_text e fname d = Inr u"
    by (simp add: read_file_bytes_to_text_def)
next
  assume "\<not> ends_with (lit ''.pdf'') (py_lower e fname)" and "\<exists>x. utf8_ignore e d = Inl x"
  then show "read_file_bytes_to_text e fname d = Inr (latin1_decode d)"
    by (auto simp: read_file_bytes_to_text_def)
qed

text \<open>
  A five-byte file named \<open>Scan.PDF\<close>: with the first reader raising and the second one
  extracting a text, that text is returned; with both readers raising and the bytes too
  short, the empty string. The same bytes under a \<open>.txt\<close> name are decoded as UTF-8.
\<close>

lemma strip_short: "strip (lit ''short'') = lit ''short''"
  by (simp add: strip_def lit_def is_space_def)

theorem decoder_fallback_chain_witness:
  "read_file_bytes_to_text pdfminer_env (lit ''Scan.PDF'') [115, 104, 111, 114, 116]
     = Inr (lit ''page text'')
   \<and> read_file_bytes_to_text test_env (lit ''Scan.PDF'') [115, 104, 111, 114, 116] = Inr []
   \<and> read_file_bytes_to_text test_env (lit ''note.txt'') [115, 104, 111, 114, 116]
     = Inr (lit ''short'')"
proof -
  let ?d = "[115, 104, 111, 114, 116] :: bytes"
  have u: "utf8_ignore test_env ?d = Inr (lit ''short'')"
    by (simp add: eval_env)
  have l: "latin1_decode ?d = lit ''short''"
    by (simp add: latin1_decode_def lit_def)
  have n: "\<not> long_enough (lit ''short'')"
    by (simp add: long_enough_iff strip_short) (simp add: lit_def)
  have p: "ends_with (lit ''.pdf'') (py_lower test_env (lit ''Scan.PDF''))"
    by (simp add: eval_env ends_with_def)
  have p': "ends_with (lit ''.pdf'') (py_lower pdfminer_env (lit ''Scan.PDF''))"
    by (simp add: pdfminer_env_def eval_env ends_with_def)
  have q: "\<not> ends_with (lit ''.pdf'') (py_lower test_env (lit ''note.txt''))"
    by (simp add: eval_env ends_with_def)
  have y1: "\<not> yields_content (pypdf2_content test_env ?d)"
    by (simp add: eval_env yields_content_def pypdf2_content_def)
  have y2: "\<not> yields_content (pdfminer_content test_env ?d)"
    by (simp add: eval_env yields_content_def pdfminer_content_def)
  have z1: "\<not> yields_content (pypdf2_content pdfminer_env ?d)"
    by (simp add: pdfminer_env_def eval_env yields_content_def pypdf2_content_def)
  have z2: "pdfminer_content pdfminer_env ?d = Inr (lit ''page text'')"
    by (simp add: pdfminer_env_def eval_env pdfminer_content_def or_empty_def)
  have z3: "strip (lit ''page text'') \<noteq> []"
    by (simp add: strip_def lit_def is_space_def)
  have a: "read_file_bytes_to_text pdfminer_env (lit ''Scan.PDF'') ?d = Inr (lit ''page text'')"
    using decoder_fallback_chain [of pdfminer_env "lit ''Scan.PDF''" ?d "[]" "lit ''page text''" "[]"]
      p' z1 z2 z3 by blast
  have b: "read_file_bytes_to_text test_env (lit ''Scan.PDF'') ?d = Inr []"
    using decoder_fallback_chain [of test_env "lit ''Scan.PDF''" ?d "[]" "[]" "[]"]
      u l n p y1 y2 by simp
  have c: "read_file_bytes_to_text test_env (lit ''note.txt'') ?d = Inr (lit ''short'')"
    using decoder_fallback_chain [of test_env "lit ''note.txt''" ?d "[]" "[]" "lit ''short''"]
      q u by blast
  from a b c show ?thesis by simp
qed

text \<open>
  C5, as the code has it. When neither PDF reader gives content, \<open>read_pdf\<close> returns the
  UTF-8 decoding if and only if its length after trimming leading and trailing whitespace
  exceeds 100 (whitespace inside the text counts); otherwise it returns the Latin-1
  decoding under the same test, and otherwise the empty string.
\<close>

theorem read_pdf_byte_decodings:
  assumes "\<not> yields_content (pypdf2_content e d)"
    and "\<not> yields_content (pdfminer_content e d)"
    and "utf8_ignore e d = Inr t"
  shows "read_pdf e d =
     (if 100 < length (strip t) then Inr t
      else if 100 < length (strip (latin1_decode d)) then Inr (latin1_decode d)
      else Inr [])"
  using assms
  by (simp add: read_pdf_exhausted read_pdf_utf8_def read_pdf_latin1_def long_enough_iff)

theorem read_pdf_byte_decodings_witness:
  "read_pdf test_env (replicate 101 120) = Inr (replicate 101 120)"
proof -
  have u: "utf8_ignore test_env (replicate 101 120) = Inr (replicate 101 120)"
    by (simp add: eval_env)
  have s: "strip (replicate 101 (120::nat)) = replicate 101 120"
    by (rule strip_keep) (simp_all add: is_space_def)
  have y1: "\<not> yields_content (pypdf2_content test_env (replicate 101 120))"
    by (simp add: eval_env yields_content_def pypdf2_content_def)
  have y2: "\<not> yields_content (pdfminer_content test_env (replicate 101 120))"
    by (simp add: eval_env yields_content_def pdfminer_content_def)
  show ?thesis
    using read_pdf_byte_decodings [OF y1 y2 u] s by simp
qed

text \<open>
  C5 as stated fails: the 102 bytes \<open>a\<close>, one hundred spaces, \<open>b\<close> are accepted by the
  UTF-8 step although only two of the decoded characters are not whitespace.
\<close>

theorem read_pdf_interior_whitespace:
  "read_pdf test_env (97 # replicate 100 32 @ [98]) = Inr (97 # replicate 100 32 @ [98])
   \<and> non_ws_length (97 # replicate 100 32 @ [98]) = 2"
proof -
  have u: "utf8_ignore test_env (97 # replicate 100 32 @ [98]) = Inr (97 # replicate 100 32 @ [98])"
    by (simp add: eval_env)
  have s: "strip (97 # replicate 100 32 @ [98::nat]) = 97 # replicate 100 32 @ [98]"
    by (rule strip_keep) (simp_all add: is_space_def)
  have y1: "pypdf2_content test_env (97 # replicate 100 32 @ [98]) = Inl lib_error"
    by (simp add: test_env_def pypdf2_content_def)
  have y2: "pdfminer_content test_env (97 # replicate 100 32 @ [98]) = Inl lib_error"
    by (simp add: test_env_def pdfminer_content_def)
  have "read_pdf test_env (97 # replicate 100 32 @ [98]) = Inr (97 # replicate 100 32 @ [98])"
    by (simp add: read_pdf_def read_pdf_pdfminer_def read_pdf_utf8_def y1 y2 u long_enough_def s)
  moreover have "non_ws_length (97 # replicate 100 32 @ [98]) = 2"
    by (simp add: non_ws_length_def is_space_def)
  ultimately show ?thesis by simp
qed

section \<open>Properties of batch processing\<close>


text \<open>
  C9, as the code has it. When the \<open>texts\<close> field is a non-empty string that
  \<open>json.loads\<close> rejects or that parses to something other than a list, \<open>analyze_batch\<close>
  raises an HTTP 400 error, has read no file and returns no result.
\<close>

theorem analyze_batch_bad_texts:
  assumes "t \<noteq> []" and "\<not> loads_list e t"
  shows "\<exists>m. analyze_batch e (Some t) files = ([], Inl (Exn (HTTPException 400) m))"
proof (cases "json_loads e t")
  case (Inl x)
  with assms(1) show ?thesis
    by (simp add: analyze_batch_def parse_texts_def or_empty_def)
next
  case (Inr v)
  with assms(2) have "\<not> is_list v" by (simp add: loads_list_def)
  with Inr assms(1) show ?thesis
    by (cases v) (simp_all add: analyze_batch_def parse_texts_def or_empty_def is_list_def)
qed

theorem analyze_batch_bad_texts_witness:
  "\<exists>m. analyze_batch test_env (Some (lit ''7''))
     (Some [\<lparr>filename = Some (lit ''note.txt''), file_read = Inr [104, 105]\<rparr>])
   = ([], Inl (Exn (HTTPException 400) m))"
proof -
  have a: "lit ''7'' \<noteq> []" by (simp add: lit_def)
  have b: "\<not> loads_list test_env (lit ''7'')"
    by (simp add: loads_list_def is_list_def eval_env)
  show ?thesis by (rule analyze_batch_bad_texts [OF a b])
qed

text \<open>
  C9 as stated fails for a field that is present and empty: the empty string is not valid
  JSON, yet the \<open>texts\<close> block is skipped, the file is read and a response is returned.
\<close>

lemma clean_good_file:
  "clean_email_text test_env (lit ''a good message from a file'') = lit ''a good message from a file''"
  by (simp add: eval_clean eval_env)

lemma classify_good_file:
  "classify_with_gemini test_env (lit ''a good message from a file'')
   = Inr \<lparr>rid = None, category = s_improdutivo, confidence = Finite (7 / 10),
        suggested_reply = default_reply, intent = s_outros\<rparr>"
  by (simp add: eval_classify eval_env strip_Nil)

lemma file_item_good: "file_item test_env 0 good_file = (True, Some \<lparr>item_id = lit ''note.txt'', item_content = lit ''a good message from a file''\<rparr>)"
proof -
  have r: "read_file_bytes_to_text test_env (lit ''note.txt'') (map of_nat (lit ''a good message from a file'')) = Inr (lit ''a good message from a file'')"
   by (simp add: read_file_bytes_to_text_def eval_env ends_with_def)
  have s: "supported test_env (lit ''note.txt'')" by (simp add: supported_def eval_env ends_with_def)
  have f: "file_name 0 good_file = lit ''note.txt''" by (simp add: file_name_def good_file_def or_empty_def lit_def)
  have rd: "file_read good_file = Inr (map of_nat (lit ''a good message from a file''))" by (simp add: good_file_def)
  have ne: "map of_nat (lit ''a good message from a file'') \<noteq> ([] :: bytes)" by (simp add: lit_def)
  have ne2: "lit ''a good message from a file'' \<noteq> []" by (simp add: lit_def)
  show ?thesis
   by (simp add: file_item_def f s rd ne r clean_good_file ne2)
qed

theorem empty_texts_field_is_skipped:
  "json_loads test_env [] = Inl (Exn ValueError (lit ''Expecting value''))
   \<and> analyze_batch test_env (Some []) (Some [good_file])
     = ([0], Inr \<lparr>count = 1, results = [\<lparr>rid = Some (lit ''note.txt''),
          category = s_improdutivo, confidence = Finite (7 / 10),
          suggested_reply = default_reply, intent = s_outros\<rparr>]\<rparr>)"
proof -
  have a: "json_loads test_env [] = Inl (Exn ValueError (lit ''Expecting value''))"
    by (simp add: eval_env)
  have b: "parse_texts test_env (Some []) = Inr []" by (simp add: parse_texts_def or_empty_def)
  have c: "file_phase test_env (Some [good_file]) = ([0], [\<lparr>item_id = lit ''note.txt'', item_content = lit ''a good message from a file''\<rparr>])"
    by (simp add: file_phase_def file_item_good)
  show ?thesis
    by (simp add: a analyze_batch_def b c classify_item_def classify_good_file)
qed


subsection \<open>Failure isolation\<close>




text \<open>Two texts, of which the second one's classification raises.\<close>

lemma clean_two:
  "clean_email_text test_env (lit ''a good message'') = lit ''a good message''"
  "clean_email_text test_env (lit ''another message'') = lit ''another message''"
  by (simp_all add: eval_clean eval_env)


lemma classify_two:
  "classify_with_gemini test_env (lit ''a good message'')
   = Inr \<lparr>rid = None, category = s_improdutivo, confidence = Finite (7 / 10),
        suggested_reply = default_reply, intent = s_outros\<rparr>"
  "classify_with_gemini test_env (lit ''another message'') = Inl lib_error"
  by (simp_all add: eval_classify eval_env strip_Nil)


text \<open>
  C2, on the code. The text \<open>hi\<close> is not whitespace and its normalization is empty; it
  becomes the item \<open>text-0\<close> with empty content all the same and is sent to the
  classifier. The same content arriving as a file yields no item.
\<close>

theorem short_text_item_is_kept:
  "text_items test_env 0 [JStr (lit ''hi'')] = [\<lparr>item_id = lit ''text-0'', item_content = []\<rparr>]
   \<and> analyze_batch test_env (Some (lit ''[\"hi\"]'')) None
     = ([], Inr \<lparr>count = 1, results = [\<lparr>rid = Some (lit ''text-0''),
          category = s_improdutivo, confidence = Finite 0,
          suggested_reply = msg_item_error @ lit ''failed'', intent = s_outros\<rparr>]\<rparr>)
   \<and> file_items test_env 0 [\<lparr>filename = Some (lit ''note.txt''), file_read = Inr [104, 105]\<rparr>]
     = ([0], [])"
proof -
  have c: "clean_email_text test_env (lit ''hi'') = []"
    by (simp add: eval_clean eval_env)
  have s: "strip (lit ''hi'') \<noteq> []" by (simp add: strip_def lit_def is_space_def)
  have d: "lit ''text-'' @ str_of_nat 0 = lit ''text-0''"
    by (simp add: str_of_nat.simps lit_def)
  have t: "text_items test_env 0 [JStr (lit ''hi'')] = [\<lparr>item_id = lit ''text-0'', item_content = []\<rparr>]"
    using s by (simp add: c d)
  have l: "json_loads test_env (lit ''[\"hi\"]'') = Inr (JArr [JStr (lit ''hi'')])"
    by (simp add: eval_env)
  have n: "lit ''[\"hi\"]'' \<noteq> []" by (simp add: lit_def)
  have p: "parse_texts test_env (Some (lit ''[\"hi\"]'')) = Inr [\<lparr>item_id = lit ''text-0'', item_content = []\<rparr>]"
    by (simp add: parse_texts_def or_empty_def n l s c d)
  have k: "classify_with_gemini test_env [] = Inl lib_error"
    by (simp add: eval_classify eval_env)
  have b: "analyze_batch test_env (Some (lit ''[\"hi\"]'')) None
     = ([], Inr \<lparr>count = 1, results = [\<lparr>rid = Some (lit ''text-0''),
          category = s_improdutivo, confidence = Finite 0,
          suggested_reply = msg_item_error @ lit ''failed'', intent = s_outros\<rparr>]\<rparr>)"
    by (simp add: analyze_batch_def p file_phase_def classify_item_def k degraded_def lib_error_def)
  have r: "read_file_bytes_to_text test_env (lit ''note.txt'') [104, 105] = Inr (lit ''hi'')"
    by (simp add: read_file_bytes_to_text_def eval_env ends_with_def)
  have u: "supported test_env (lit ''note.txt'')" by (simp add: supported_def eval_env ends_with_def)
  have f: "file_name 0 \<lparr>filename = Some (lit ''note.txt''), file_read = Inr [104, 105]\<rparr> = lit ''note.txt''"
    by (simp add: file_name_def or_empty_def lit_def)
  have fi: "file_item test_env 0 \<lparr>filename = Some (lit ''note.txt''), file_read = Inr [104, 105]\<rparr> = (True, None)"
    by (simp add: file_item_def f u r c)
  have g: "file_items test_env 0 [\<lparr>filename = Some (lit ''note.txt''), file_read = Inr [104, 105]\<rparr>] = ([0], [])"
    by (simp add: fi)
  from t b g show ?thesis by simp
qed


section \<open>Properties of the endpoints\<close>

text \<open>
  C10. When a file is supplied to \<open>analyze\<close>, the text field has no influence and the
  file decides the outcome: the call equals the one without a text field; when the file
  is read, has a supported name and decodes to a text, the call is the classification of
  the cleaned decoded text, or status 400 when that is empty; an unsupported name is
  status 415; and an exception of the read is the exception of the call.
\<close>

theorem analyze_uses_file_only:
  "analyze e t (Some f) = analyze e None (Some f)
   \<and> (file_read f = Inr d \<and> supported e (or_empty (filename f))
        \<and> read_file_bytes_to_text e (or_empty (filename f)) d = Inr raw
      \<longrightarrow> analyze e t (Some f)
            = (if clean_email_text e raw = [] then Inl (Exn (HTTPException 400) msg_empty)
               else classify_with_gemini e (clean_email_text e raw)))
   \<and> (file_read f = Inr d \<and> \<not> supported e (or_empty (filename f))
      \<longrightarrow> analyze e t (Some f) = Inl (Exn (HTTPException 415) msg_unsupported))
   \<and> (file_read f = Inl x \<longrightarrow> analyze e t (Some f) = Inl x)"
proof (intro conjI impI)
  show "analyze e t (Some f) = analyze e None (Some f)"
    by (simp add: analyze_def)
next
  assume "file_read f = Inr d \<and> supported e (or_empty (filename f))
        \<and> read_file_bytes_to_text e (or_empty (filename f)) d = Inr raw"
  then show "analyze e t (Some f)
            = (if clean_email_text e raw = [] then Inl (Exn (HTTPException 400) msg_empty)
               else classify_with_gemini e (clean_email_text e raw))"
    by (simp add: analyze_def analyze_content_def)
next
  assume "file_read f = Inr d \<and> \<not> supported e (or_empty (filename f))"
  then show "analyze e t (Some f) = Inl (Exn (HTTPException 415) msg_unsupported)"
    by (simp add: analyze_def)
next
  assume "file_read f = Inl x"
  then show "analyze e t (Some f) = Inl x"
    by (simp add: analyze_def)
qed

text \<open>
  A text field whose own classification raises, sent together with a file: the result is
  the classification of the file's content.
\<close>

theorem analyze_uses_file_only_witness:
  "analyze test_env (Some (lit ''another message'')) (Some good_file)
     = Inr \<lparr>rid = None, category = s_improdutivo, confidence = Finite (7 / 10),
          suggested_reply = default_reply, intent = s_outros\<rparr>
   \<and> analyze test_env (Some (lit ''another message'')) None = Inl lib_error"
proof -
  let ?d = "map of_nat (lit ''a good message from a file'') :: bytes"
  have r: "file_read good_file = Inr ?d" by (simp add: good_file_def)
  have n: "or_empty (filename good_file) = lit ''note.txt''"
    by (simp add: good_file_def or_empty_def)
  have s: "supported test_env (or_empty (filename good_file))"
    by (simp add: n) (simp add: supported_def eval_env ends_with_def)
  have t: "read_file_bytes_to_text test_env (or_empty (filename good_file)) ?d
      = Inr (lit ''a good message from a file'')"
    by (simp add: n) (simp add: read_file_bytes_to_text_def eval_env ends_with_def)
  have ne: "clean_email_text test_env (lit ''a good message from a file'') \<noteq> []"
    by (simp add: clean_good_file) (simp add: lit_def)
  have "analyze test_env (Some (lit ''another message'')) (Some good_file)
     = (if clean_email_text test_env (lit ''a good message from a file'') = []
        then Inl (Exn (HTTPException 400) msg_empty)
        else classify_with_gemini test_env
          (clean_email_text test_env (lit ''a good message from a file'')))"
    using analyze_uses_file_only [of test_env "Some (lit ''another message'')" good_file ?d
        "lit ''a good message from a file''"] r s t
    by blast
  with ne have a: "analyze test_env (Some (lit ''another message'')) (Some good_file)
     = classify_with_gemini test_env (clean_email_text test_env (lit ''a good message from a file''))"
    by simp
  have o: "or_empty (Some (lit ''another message'')) = lit ''another message''"
    by (simp add: or_empty_def)
  have m: "lit ''another message'' \<noteq> []" by (simp add: lit_def)
  have b: "analyze test_env (Some (lit ''another message'')) None = Inl lib_error"
    by (simp add: analyze_def analyze_content_def o m clean_two classify_two)
  from a b show ?thesis by (simp add: clean_good_file classify_good_file)
qed


end
